theory Spec2Isabelle
  imports Complex_Main
begin

section \<open>Python values used by the two programs\<close>

text \<open>
  Datagrams are byte strings, modelled as \<open>string\<close> (a list of 8-bit characters).
  Python integers are unbounded and modelled as \<open>int\<close>. Clock readings and rates are
  Python floats; they are modelled as exact real numbers, so rounding is outside the model.
  An exception is a value of type \<open>error\<close>.
\<close>

datatype error = ValueError | UnboundLocalError

type_synonym bytes = string

subsection \<open>\<open>str(n)\<close> for an integer\<close>

definition digit_char :: "nat \<Rightarrow> char" where
  "digit_char d = ''0123456789'' ! d"

fun digits_of :: "nat \<Rightarrow> string" where
  "digits_of n = (if n < 10 then [digit_char n] else digits_of (n div 10) @ [digit_char (n mod 10)])"

declare digits_of.simps [simp del]

text \<open>
  The decimal digits, most significant first, after a minus sign for a negative number.
  The interpreter's limit on the length of a conversion (see \<open>int\<close> below) applies to
  \<open>str\<close> too; it is not modelled here: the sender only converts its packet counter,
  which starts at 0 and grows by one for each packet.
\<close>

definition py_str :: "int \<Rightarrow> string" where
  "py_str n = (if n < 0 then CHR ''-'' # digits_of (nat (- n)) else digits_of (nat n))"

subsection \<open>\<open>int(b)\<close> for a byte string\<close>

text \<open>
  \<open>int\<close> applied to bytes reads a base-10 integer literal: whitespace (space, tab, line
  feed, vertical tab, form feed, carriage return) is skipped, one sign may follow, then comes
  the longest run of digits and underscores, which must be digits separated by at most one
  underscore at a time, and only whitespace may remain. Anything else raises \<open>ValueError\<close>.

  The interpreter also limits the length of the conversion: with the setting
  \<open>max_str_digits\<close> (4300 unless configured otherwise, 0 for no limit), a literal of more
  than 640 digits and more than \<open>max_str_digits\<close> digits raises \<open>ValueError\<close>. The
  digits are counted without underscores, sign and whitespace. The setting belongs to the
  interpreter, not to the program, and is a parameter of the model.
\<close>

definition is_space :: "char \<Rightarrow> bool" where
  "is_space c = (c \<in> set [CHR 0x20, CHR 0x09, CHR 0x0A, CHR 0x0B, CHR 0x0C, CHR 0x0D])"

definition is_digit :: "char \<Rightarrow> bool" where
  "is_digit c = (48 \<le> (of_char c :: nat) \<and> (of_char c :: nat) \<le> 57)"

definition digit_value :: "char \<Rightarrow> int" where
  "digit_value c = int (of_char c) - 48"

definition is_digit_or_underscore :: "char \<Rightarrow> bool" where
  "is_digit_or_underscore c = (is_digit c \<or> c = CHR ''_'')"

fun digit_groups :: "string \<Rightarrow> bool" where
  "digit_groups [] = False"
| "digit_groups [c] = is_digit c"
| "digit_groups (c # d # cs) =
     (is_digit c \<and> (if d = CHR ''_'' then digit_groups cs else digit_groups (d # cs)))"

definition decimal_value :: "string \<Rightarrow> int" where
  "decimal_value ds = foldl (\<lambda>acc c. 10 * acc + digit_value c) 0 ds"

fun sign_split :: "string \<Rightarrow> int \<times> string" where
  "sign_split [] = (1, [])"
| "sign_split (c # cs) =
     (if c = CHR ''+'' then (1, cs) else if c = CHR ''-'' then (- 1, cs) else (1, c # cs))"

definition exceeds_digit_limit :: "nat \<Rightarrow> nat \<Rightarrow> bool" where
  "exceeds_digit_limit max_str_digits digits =
     (digits > 640 \<and> max_str_digits > 0 \<and> digits > max_str_digits)"

definition py_int :: "nat \<Rightarrow> bytes \<Rightarrow> error + int" where
  "py_int max_str_digits s =
     (let s1 = dropWhile is_space s;
          (sgn, s2) = sign_split s1;
          body = takeWhile is_digit_or_underscore s2;
          rest = dropWhile is_digit_or_underscore s2
      in if digit_groups body \<and> list_all is_space rest
         then (if exceeds_digit_limit max_str_digits (length (filter is_digit body))
               then Inl ValueError
               else Inr (sgn * decimal_value (filter is_digit body)))
         else Inl ValueError)"

subsection \<open>Slicing and splitting\<close>

text \<open>\<open>xs[:k]\<close>: a negative \<open>k\<close> counts from the end; nothing is raised out of range.\<close>

definition py_slice_to :: "'a list \<Rightarrow> int \<Rightarrow> 'a list" where
  "py_slice_to xs k = (if 0 \<le> k then take (nat k) xs else take (length xs - nat (- k)) xs)"

text \<open>\<open>data.split(b':')[0]\<close>: the bytes before the first colon, all of them when there is none.\<close>

definition split_first :: "bytes \<Rightarrow> bytes" where
  "split_first data = takeWhile (\<lambda>c. c \<noteq> CHR '':'') data"

section \<open>Packet codec\<close>

text \<open>
  The sender prepares and truncates one packet (\<open>udp_sender.py\<close>, lines 56 and 59):
  \<^verbatim>\<open>packet_data = f"{packets_sent}:".encode() + b'X' * (current_size - len(f"{packets_sent}:") - 1)\<close>
  and sends \<^verbatim>\<open>packet_data[:current_size]\<close>. A negative repeat count gives the empty
  byte string.
\<close>

definition encode :: "int \<Rightarrow> int \<Rightarrow> bytes" where
  "encode packets_sent current_size =
     (let prefix = py_str packets_sent @ '':'';
          packet_data = prefix @ replicate (nat (current_size - int (length prefix) - 1)) (CHR ''X'')
      in py_slice_to packet_data current_size)"

text \<open>
  The receiver parses the sequence number (\<open>udp_receiver.py\<close>, lines 127 and 128):
  \<^verbatim>\<open>seq_str = data.split(b':')[0]; seq_num = int(seq_str)\<close>.
\<close>

definition decode :: "nat \<Rightarrow> bytes \<Rightarrow> error + int" where
  "decode max_str_digits data = py_int max_str_digits (split_first data)"

section \<open>Receiver statistics\<close>

record stats =
  start_time :: real
  packets_received :: int
  bytes_received :: int
  last_seq_num :: "int option"
  out_of_order :: int
  duplicates :: int
  missing :: int
  sequence_numbers :: "int set"
  min_seq :: "int option"
  max_seq :: "int option"
  last_report_time :: real
  last_packets :: int
  last_bytes :: int
  one_sec_rates :: "(real \<times> real) list"

text \<open>The dictionary built at start-up; the two clock readings are parameters.\<close>

definition init_stats :: "real \<Rightarrow> real \<Rightarrow> stats" where
  "init_stats t_start t_report =
     \<lparr> start_time = t_start, packets_received = 0, bytes_received = 0, last_seq_num = None,
       out_of_order = 0, duplicates = 0, missing = 0, sequence_numbers = {},
       min_seq = None, max_seq = None, last_report_time = t_report,
       last_packets = 0, last_bytes = 0, one_sec_rates = [] \<rparr>"

subsection \<open>Sequence tracking (lines 131 to 146)\<close>

definition observe :: "int \<Rightarrow> stats \<Rightarrow> stats" where
  "observe seq_num st =
     (let st1 = (if seq_num \<in> sequence_numbers st
                 then st\<lparr>duplicates := duplicates st + 1\<rparr>
                 else st\<lparr>sequence_numbers := insert seq_num (sequence_numbers st)\<rparr>);
          st2 = (if (case min_seq st1 of None \<Rightarrow> True | Some m \<Rightarrow> seq_num < m)
                 then st1\<lparr>min_seq := Some seq_num\<rparr> else st1);
          st3 = (if (case max_seq st2 of None \<Rightarrow> True | Some m \<Rightarrow> seq_num > m)
                 then st2\<lparr>max_seq := Some seq_num\<rparr> else st2);
          st4 = (if (case last_seq_num st3 of None \<Rightarrow> False | Some l \<Rightarrow> seq_num < l)
                 then st3\<lparr>out_of_order := out_of_order st3 + 1\<rparr> else st3)
      in st4\<lparr>last_seq_num := Some seq_num\<rparr>)"

fun observe_all :: "int list \<Rightarrow> stats \<Rightarrow> stats" where
  "observe_all [] st = st"
| "observe_all (n # ns) st = observe_all ns (observe n st)"

subsection \<open>One received datagram (lines 122 to 149)\<close>

text \<open>
  The raw counters are updated first; the bare \<open>except\<close> swallows the error of a failed
  parse, which happens before any sequence field is touched.
\<close>

definition receive :: "nat \<Rightarrow> bytes \<Rightarrow> stats \<Rightarrow> stats" where
  "receive max_str_digits data st =
     (let st1 = st\<lparr>packets_received := packets_received st + 1,
                   bytes_received := bytes_received st + int (length data)\<rparr>
      in case decode max_str_digits data of
           Inl e \<Rightarrow> st1
         | Inr seq_num \<Rightarrow> observe seq_num st1)"

fun receive_all :: "nat \<Rightarrow> bytes list \<Rightarrow> stats \<Rightarrow> stats" where
  "receive_all max_str_digits [] st = st"
| "receive_all max_str_digits (d # ds) st =
     receive_all max_str_digits ds (receive max_str_digits d st)"

subsection \<open>Rate sampling (\<open>print_stats\<close>, lines 54 to 72)\<close>

type_synonym rates = "(real \<times> real) list"

text \<open>
  Lines 54 to 64 with the packet and byte deltas and the elapsed time as arguments:
  the result is \<open>(pps, bps)\<close> and the updated window. \<open>pop(0)\<close> is only reached on a
  list of more than ten samples, where it drops the head.
\<close>

definition tick :: "int \<Rightarrow> int \<Rightarrow> real \<Rightarrow> rates \<Rightarrow> (real \<times> real) \<times> rates" where
  "tick delta_packets delta_bytes elapsed window =
     (if elapsed > 0 then
        (let pps = real_of_int delta_packets / elapsed;
             bps = real_of_int (delta_bytes * 8) / elapsed;
             appended = window @ [(pps, bps)];
             kept = (if length appended > 10 then tl appended else appended)
         in ((pps, bps), kept))
      else ((0, 0), window))"

text \<open>Lines 67 to 72.\<close>

definition average :: "rates \<Rightarrow> real \<times> real" where
  "average window =
     (if window \<noteq> [] then
        (sum_list (map fst window) / real (length window),
         sum_list (map snd window) / real (length window))
      else (0, 0))"

fun ticks :: "(int \<times> int \<times> real) list \<Rightarrow> rates \<Rightarrow> rates" where
  "ticks [] window = window"
| "ticks ((dp, db, dt) # ts) window = ticks ts (snd (tick dp db dt window))"

subsection \<open>Loss computation (\<open>print_stats\<close>, lines 74 to 83)\<close>

text \<open>
  The result is \<open>(expected, received, loss_percent)\<close>. The local variable \<open>received\<close>
  is assigned in the first branch only: \<open>None\<close> stands for the unbound local.
\<close>

definition loss_stats :: "stats \<Rightarrow> int \<times> int option \<times> real" where
  "loss_stats st =
     (case (min_seq st, max_seq st) of
        (Some lo, Some hi) \<Rightarrow>
          (let expected = hi - lo + 1;
               received = int (card (sequence_numbers st))
           in (expected, Some received,
               if expected > 0 then real_of_int (100 * (expected - received)) / real_of_int expected
               else 0))
      | _ \<Rightarrow> (0, None, 0))"

subsection \<open>The report (\<open>print_stats\<close>, lines 49 to 110)\<close>

record final_summary =
  test_duration :: real
  total_packets :: int
  total_bytes :: int
  average_packet_rate :: real
  average_bit_rate_mbps :: real
  range_min :: "int option"
  range_max :: "int option"
  expected_packets :: int
  missing_packets :: int
  duplicate_packets :: int
  out_of_order_packets :: int
  packet_loss :: real
  rate_history :: "(real \<times> real \<times> real) list"

datatype report = Periodic real real real | Final final_summary

text \<open>
  \<open>print_stats st final now\<close> returns what is printed, as values before formatting, and
  the statistics afterwards. Reading the unbound local \<open>received\<close> on line 94 raises
  \<open>UnboundLocalError\<close>; the window has been updated by then, the three \<open>last_\<close>
  fields have not.
\<close>

definition print_stats :: "stats \<Rightarrow> bool \<Rightarrow> real \<Rightarrow> (error + report) \<times> stats" where
  "print_stats st final now =
     (let elapsed = now - last_report_time st;
          total_elapsed = now - start_time st;
          ((pps, bps), window) = tick (packets_received st - last_packets st)
                                      (bytes_received st - last_bytes st) elapsed (one_sec_rates st);
          st1 = st\<lparr>one_sec_rates := window\<rparr>;
          (avg_pps, avg_bps) = average window;
          (expected, received, loss_percent) = loss_stats st1;
          st2 = st1\<lparr>last_report_time := now, last_packets := packets_received st1,
                    last_bytes := bytes_received st1\<rparr>
      in if final then
           (case received of
              None \<Rightarrow> (Inl UnboundLocalError, st1)
            | Some r \<Rightarrow>
                (Inr (Final
                   \<lparr> test_duration = total_elapsed,
                     total_packets = packets_received st1,
                     total_bytes = bytes_received st1,
                     average_packet_rate =
                       (if total_elapsed > 0 then real_of_int (packets_received st1) / total_elapsed else 0),
                     average_bit_rate_mbps =
                       (if total_elapsed > 0
                        then real_of_int (bytes_received st1 * 8) / total_elapsed / 1000000 else 0),
                     range_min = min_seq st1,
                     range_max = max_seq st1,
                     expected_packets = expected,
                     missing_packets = (if expected > r then expected - r else 0),
                     duplicate_packets = duplicates st1,
                     out_of_order_packets = out_of_order st1,
                     packet_loss = loss_percent,
                     rate_history =
                       map (\<lambda>(i, (rate_pps, rate_bps)).
                              (total_elapsed - real (length window) + real i + 1, rate_pps, rate_bps / 1000000))
                           (enumerate 0 window) \<rparr>),
                 st2))
         else (Inr (Periodic pps (bps / 1000000) loss_percent), st2))"

section \<open>Auxiliary notions for the proofs\<close>

text \<open>The sample that one call of \<open>tick\<close> with the given deltas contributes.\<close>

definition sample_of :: "int \<times> int \<times> real \<Rightarrow> real \<times> real" where
  "sample_of t = (case t of (dp, db, dt) \<Rightarrow> fst (tick dp db dt []))"

text \<open>The invariant of the sequence fields that every received datagram preserves.\<close>

definition tracker_inv :: "stats \<Rightarrow> bool" where
  "tracker_inv st =
     (finite (sequence_numbers st) \<and>
      0 \<le> duplicates st \<and> duplicates st \<le> packets_received st \<and>
      (case (min_seq st, max_seq st) of
         (None, None) \<Rightarrow> sequence_numbers st = {}
       | (Some lo, Some hi) \<Rightarrow> lo \<le> hi \<and> sequence_numbers st \<subseteq> {lo..hi}
       | _ \<Rightarrow> False))"

section \<open>Sequence tracker: field-wise behaviour of \<open>observe\<close>\<close>

lemma observe_sequence_numbers:
  "sequence_numbers (observe n st) = insert n (sequence_numbers st)"
  by (auto simp: observe_def Let_def)

lemma observe_duplicates:
  "duplicates (observe n st) = (if n \<in> sequence_numbers st then duplicates st + 1 else duplicates st)"
  by (simp add: observe_def Let_def)

lemma observe_min_seq:
  "min_seq (observe n st) = Some (case min_seq st of None \<Rightarrow> n | Some m \<Rightarrow> min n m)"
  by (simp add: observe_def Let_def split: option.splits)

lemma observe_max_seq:
  "max_seq (observe n st) = Some (case max_seq st of None \<Rightarrow> n | Some m \<Rightarrow> max n m)"
  by (simp add: observe_def Let_def split: option.splits)

lemma observe_raw_counters:
  "packets_received (observe n st) = packets_received st"
  "bytes_received (observe n st) = bytes_received st"
  by (simp_all add: observe_def Let_def)

lemma observe_all_count:
  "finite (sequence_numbers st) \<Longrightarrow>
   duplicates (observe_all ns st) + int (card (sequence_numbers (observe_all ns st)))
     = duplicates st + int (card (sequence_numbers st)) + int (length ns)"
proof (induction ns arbitrary: st)
  case Nil
  then show ?case by simp
next
  case (Cons n ns)
  have fin: "finite (sequence_numbers (observe n st))"
    using Cons.prems by (simp add: observe_sequence_numbers)
  have step: "duplicates (observe n st) + int (card (sequence_numbers (observe n st)))
                = duplicates st + int (card (sequence_numbers st)) + 1"
    using Cons.prems by (simp add: observe_sequence_numbers observe_duplicates insert_absorb)
  show ?case
    using Cons.IH [OF fin] step by simp
qed

section \<open>Scenario A\<close>

text \<open>
  Claim C1, as stated, asks for \<open>out_of_order = 0\<close> after observing \<open>[0, 1, 2, 1, 4]\<close>.
  The out-of-order check on line 143 also runs for a duplicate: the second \<open>1\<close> arrives
  after \<open>2\<close> and is counted. The statement with \<open>out_of_order = 0\<close> is false.
\<close>

theorem scenario_a_as_claimed_counterexample:
  "\<not> (let st = observe_all [0, 1, 2, 1, 4] (init_stats 0 0) in
        duplicates st = 1 \<and> out_of_order st = 0 \<and> min_seq st = Some 0 \<and> max_seq st = Some 4 \<and>
        card (sequence_numbers st) = 4 \<and> loss_stats st = (5, Some 4, 20))"
  by (simp add: observe_def init_stats_def Let_def)

text \<open>
  Claim C1 (amended): for the observe sequence \<open>[0, 1, 2, 1, 4]\<close> from a fresh state,
  duplicates is 1, out_of_order is 1, min_seq is 0, max_seq is 4, four distinct sequence
  numbers were received, five were expected, one is missing and the loss is 20 percent;
  the final summary prints these values.
\<close>

theorem scenario_a:
  "let st = observe_all [0, 1, 2, 1, 4] (init_stats t_start t_report) in
     duplicates st = 1 \<and> out_of_order st = 1 \<and> min_seq st = Some 0 \<and> max_seq st = Some 4 \<and>
     card (sequence_numbers st) = 4 \<and> loss_stats st = (5, Some 4, 20) \<and>
     (\<exists>summary. fst (print_stats st True now) = Inr (Final summary) \<and>
        expected_packets summary = 5 \<and> missing_packets summary = 1 \<and>
        duplicate_packets summary = 1 \<and> out_of_order_packets summary = 1 \<and>
        range_min summary = Some 0 \<and> range_max summary = Some 4 \<and> packet_loss summary = 20)"
  by (simp add: observe_def init_stats_def Let_def loss_stats_def print_stats_def tick_def
        split: prod.splits)

section \<open>Scenario B: the empty session\<close>

text \<open>
  Claim C2: on an empty session the statistics give expected 0, missing 0 and loss 0
  without a crash, also in the final summary. The loss computation and the periodic
  report do so. The final summary does not: line 94 reads the local \<open>received\<close>, which
  is only assigned when both bounds are set, and \<open>UnboundLocalError\<close> is raised.
\<close>

theorem empty_session_final_report_fails:
  "loss_stats (init_stats t_start t_report) = (0, None, 0) \<and>
   (\<exists>pps mbps. fst (print_stats (init_stats t_start t_report) False now) = Inr (Periodic pps mbps 0)) \<and>
   fst (print_stats (init_stats t_start t_report) True now) = Inl UnboundLocalError"
  by (simp add: init_stats_def Let_def loss_stats_def print_stats_def tick_def split: prod.splits)

section \<open>Packet codec: digits and literals\<close>

lemma below_ten:
  "d < 10 \<Longrightarrow> d = 0 \<or> d = 1 \<or> d = 2 \<or> d = 3 \<or> d = 4 \<or> d = 5 \<or> d = 6 \<or> d = 7 \<or> d = 8 \<or> d = (9::nat)"
  by arith

lemma is_digit_digit_char: "d < 10 \<Longrightarrow> is_digit (digit_char d)"
  by (drule below_ten) (elim disjE; simp add: is_digit_def digit_char_def)

lemma digit_value_digit_char: "d < 10 \<Longrightarrow> digit_value (digit_char d) = int d"
  by (drule below_ten) (elim disjE; simp add: digit_value_def digit_char_def)

lemma is_digit_not_special:
  assumes "is_digit c"
  shows "\<not> is_space c" "c \<noteq> CHR ''+''" "c \<noteq> CHR ''-''" "c \<noteq> CHR ''_''" "c \<noteq> CHR '':''"
  using assms by (auto simp: is_digit_def is_space_def)

lemma is_space_not_digit_or_underscore: "is_space c \<Longrightarrow> \<not> is_digit_or_underscore c"
  by (auto simp: is_digit_or_underscore_def is_space_def is_digit_def)

lemma digits_of_nonempty: "digits_of n \<noteq> []"
  by (subst digits_of.simps) simp

lemma digits_of_digits: "c \<in> set (digits_of n) \<Longrightarrow> is_digit c"
proof (induction n arbitrary: c rule: digits_of.induct)
  case (1 n)
  show ?case
  proof (cases "n < 10")
    case True
    then show ?thesis
      using "1.prems" by (subst (asm) digits_of.simps) (simp add: is_digit_digit_char)
  next
    case False
    then show ?thesis
      using "1.prems" "1.IH" by (subst (asm) digits_of.simps) (auto simp: is_digit_digit_char)
  qed
qed

lemma decimal_value_snoc:
  "decimal_value (ds @ [c]) = 10 * decimal_value ds + digit_value c"
  by (simp add: decimal_value_def)

lemma decimal_value_digits_of: "decimal_value (digits_of n) = int n"
proof (induction n rule: digits_of.induct)
  case (1 n)
  show ?case
  proof (cases "n < 10")
    case True
    then show ?thesis
      by (subst digits_of.simps) (simp add: decimal_value_def digit_value_digit_char)
  next
    case False
    then show ?thesis
      using "1.IH"
      by (subst digits_of.simps) (simp add: decimal_value_snoc digit_value_digit_char zdiv_int zmod_int)
  qed
qed

lemma digit_groups_all_digits:
  "ds \<noteq> [] \<Longrightarrow> \<forall>c \<in> set ds. is_digit c \<Longrightarrow> digit_groups ds"
  by (induction ds rule: digit_groups.induct) (auto simp: is_digit_not_special)

lemma digit_groups_shape:
  "digit_groups body \<Longrightarrow> body \<noteq> [] \<and> is_digit (hd body) \<and> (\<forall>c \<in> set body. is_digit_or_underscore c)"
  by (induction body rule: digit_groups.induct)
     (auto simp: is_digit_or_underscore_def split: if_splits)

lemma takeWhile_body:
  assumes "\<forall>c \<in> set body. is_digit_or_underscore c" "list_all is_space ws"
  shows "takeWhile is_digit_or_underscore (body @ ws) = body"
    and "dropWhile is_digit_or_underscore (body @ ws) = ws"
proof -
  have ws: "takeWhile is_digit_or_underscore ws = []" "dropWhile is_digit_or_underscore ws = ws"
    using assms(2) by (cases ws; simp add: is_space_not_digit_or_underscore)+
  show "takeWhile is_digit_or_underscore (body @ ws) = body"
    using assms(1) ws by (simp add: takeWhile_append2)
  show "dropWhile is_digit_or_underscore (body @ ws) = ws"
    using assms(1) ws by (simp add: dropWhile_append2)
qed

lemma py_int_literal:
  assumes "list_all is_space ws1" "sg \<in> {[], ''+'', ''-''}" "digit_groups body"
    "list_all is_space ws2"
    "\<not> exceeds_digit_limit max_str_digits (length (filter is_digit body))"
  shows "py_int max_str_digits (ws1 @ sg @ body @ ws2)
           = Inr ((if sg = ''-'' then - 1 else 1) * decimal_value (filter is_digit body))"
proof -
  obtain b bs where body: "body = b # bs" and b: "is_digit b"
    and all: "\<forall>c \<in> set body. is_digit_or_underscore c"
    using digit_groups_shape [OF assms(3)] by (cases body) auto
  have "\<not> is_space (hd (sg @ body @ ws2))"
    using assms(2) is_digit_not_special(1) [OF b] by (auto simp: body is_space_def)
  moreover have "sg @ body @ ws2 \<noteq> []" by (simp add: body)
  ultimately have self: "dropWhile is_space (sg @ body @ ws2) = sg @ body @ ws2"
    by (cases "sg @ body @ ws2") auto
  have strip: "dropWhile is_space (ws1 @ sg @ body @ ws2) = sg @ body @ ws2"
    using assms(1) self by (simp add: dropWhile_append2 list_all_iff)
  have sgn: "sign_split (sg @ body @ ws2) = ((if sg = ''-'' then - 1 else 1), body @ ws2)"
    using assms(2) b by (auto simp: body is_digit_not_special)
  show ?thesis
    using assms(3,4,5) by (simp add: py_int_def strip sgn takeWhile_body [OF all assms(4)])
qed

lemma sign_split_cases:
  "\<exists>sg. sg \<in> {[], ''+'', ''-''} \<and> s = sg @ snd (sign_split s)
        \<and> fst (sign_split s) = (if sg = ''-'' then - 1 else 1)"
  by (cases s) auto

lemma py_int_literal_conv:
  assumes "py_int max_str_digits s = Inr v"
  shows "\<exists>ws1 sg body ws2. s = ws1 @ sg @ body @ ws2 \<and> list_all is_space ws1 \<and>
           sg \<in> {[], ''+'', ''-''} \<and> digit_groups body \<and> list_all is_space ws2 \<and>
           \<not> exceeds_digit_limit max_str_digits (length (filter is_digit body))"
proof -
  let ?s1 = "dropWhile is_space s"
  let ?s2 = "snd (sign_split ?s1)"
  let ?body = "takeWhile is_digit_or_underscore ?s2"
  let ?rest = "dropWhile is_digit_or_underscore ?s2"
  obtain sg where sg: "sg \<in> {[], ''+'', ''-''}" "?s1 = sg @ ?s2"
    using sign_split_cases [of ?s1] by blast
  have ok: "digit_groups ?body \<and> list_all is_space ?rest \<and>
      \<not> exceeds_digit_limit max_str_digits (length (filter is_digit ?body))"
    using assms by (simp add: py_int_def Let_def split: prod.splits if_splits)
  have "s = takeWhile is_space s @ ?s1" by simp
  also have "\<dots> = takeWhile is_space s @ sg @ ?body @ ?rest"
    using sg(2) by simp
  finally have "s = takeWhile is_space s @ sg @ ?body @ ?rest" .
  moreover have "list_all is_space (takeWhile is_space s)"
    by (simp add: list_all_iff) (meson set_takeWhileD)
  ultimately show ?thesis
    using sg(1) ok by blast
qed

lemma py_int_error: "py_int max_str_digits s = Inl e \<Longrightarrow> e = ValueError"
  by (simp add: py_int_def Let_def split: prod.splits if_splits)

lemmas codec_eval = decode_def split_first_def py_int_def exceeds_digit_limit_def
  is_space_def is_digit_def
  is_digit_or_underscore_def decimal_value_def digit_value_def

lemma decode_examples:
  "decode 4300 ''0:X'' = Inr 0"
  "decode 4300 ''2:X'' = Inr 2"
  "decode 4300 ''junk'' = Inl ValueError"
  "decode 4300 ''12a:'' = Inl ValueError"
  by (simp_all add: codec_eval)

lemma py_str_examples:
  "py_str 0 = ''0''"
  "py_str 77 = ''77''"
  by (simp_all add: py_str_def digits_of.simps digit_char_def)

section \<open>Decoding\<close>

text \<open>
  Claim C3, as stated, says that \<open>decode\<close> signals an error when the delimiter is missing
  and only returns non-negative integers. The receiver parses whatever precedes the first
  colon, which is the whole datagram when there is no colon, and \<open>int\<close> accepts a sign:
  a datagram of digits only decodes, and a minus sign gives a negative number.
\<close>

theorem decode_as_claimed_counterexample:
  "CHR '':'' \<notin> set ''123'' \<and> decode 4300 ''123'' = Inr 123 \<and> decode 4300 ''-5:XX'' = Inr (- 5)"
  by (simp add: codec_eval)

text \<open>
  Claim C3 (amended): \<open>decode\<close> signals the parse error exactly when the bytes before the
  first delimiter (the whole input when there is none) are not an integer literal within
  the interpreter's digit limit. An integer literal is optional whitespace, an optional
  sign, decimal digits with at most one underscore between two digits, and optional
  whitespace; it is within the limit unless it has more than 640 digits and more than
  \<open>max_str_digits\<close> digits with \<open>max_str_digits\<close> positive (4300 by default). For every
  other input \<open>decode\<close> returns the integer that the digits denote, negated when the sign
  is a minus.
\<close>

theorem decode_error_iff_not_literal:
  "(decode max_str_digits data = Inl ValueError \<longleftrightarrow>
      \<not> (\<exists>ws1 sg body ws2. split_first data = ws1 @ sg @ body @ ws2 \<and> list_all is_space ws1 \<and>
            sg \<in> {[], ''+'', ''-''} \<and> digit_groups body \<and> list_all is_space ws2 \<and>
            \<not> exceeds_digit_limit max_str_digits (length (filter is_digit body)))) \<and>
   (\<forall>ws1 sg body ws2. split_first data = ws1 @ sg @ body @ ws2 \<and> list_all is_space ws1 \<and>
        sg \<in> {[], ''+'', ''-''} \<and> digit_groups body \<and> list_all is_space ws2 \<and>
        \<not> exceeds_digit_limit max_str_digits (length (filter is_digit body)) \<longrightarrow>
        decode max_str_digits data
          = Inr ((if sg = ''-'' then - 1 else 1) * decimal_value (filter is_digit body)))"
    (is "(?err \<longleftrightarrow> \<not> ?lit) \<and> ?val")
proof (intro conjI iffI)
  show val: ?val
  proof (intro allI impI, elim conjE)
    fix ws1 sg body ws2
    assume "split_first data = ws1 @ sg @ body @ ws2" "list_all is_space ws1"
      "sg \<in> {[], ''+'', ''-''}" "digit_groups body" "list_all is_space ws2"
      "\<not> exceeds_digit_limit max_str_digits (length (filter is_digit body))"
    then show "decode max_str_digits data
        = Inr ((if sg = ''-'' then - 1 else 1) * decimal_value (filter is_digit body))"
      using py_int_literal [of ws1 sg body ws2 max_str_digits] by (simp add: decode_def)
  qed
  show "\<not> ?lit" if ?err
  proof
    assume ?lit
    then obtain v where "decode max_str_digits data = Inr v"
      using val by blast
    then show False using that by simp
  qed
  show ?err if "\<not> ?lit"
  proof (cases "py_int max_str_digits (split_first data)")
    case (Inl e)
    then show ?thesis
      using py_int_error [OF Inl] by (simp add: decode_def)
  next
    case (Inr v)
    then show ?thesis
      using py_int_literal_conv [OF Inr] that by simp
  qed
qed

theorem decode_error_iff_not_literal_witness:
  "split_first '' -1_2 :X'' = '' '' @ ''-'' @ ''1_2'' @ '' '' \<and> list_all is_space '' '' \<and>
   ''-'' \<in> {[], ''+'', ''-''} \<and> digit_groups ''1_2'' \<and>
   \<not> exceeds_digit_limit 4300 (length (filter is_digit ''1_2'')) \<and>
   decode 4300 '' -1_2 :X'' = Inr (- 12) \<and>
   decode 4300 ''12a:'' = Inl ValueError \<and>
   \<not> (\<exists>ws1 sg body ws2. split_first ''12a:'' = ws1 @ sg @ body @ ws2 \<and> list_all is_space ws1 \<and>
            sg \<in> {[], ''+'', ''-''} \<and> digit_groups body \<and> list_all is_space ws2 \<and>
            \<not> exceeds_digit_limit 4300 (length (filter is_digit body)))"
proof -
  have lit: "split_first '' -1_2 :X'' = '' '' @ ''-'' @ ''1_2'' @ '' '' \<and> list_all is_space '' '' \<and>
      ''-'' \<in> {[], ''+'', ''-''} \<and> digit_groups ''1_2'' \<and> list_all is_space '' '' \<and>
      \<not> exceeds_digit_limit 4300 (length (filter is_digit ''1_2''))"
    by (simp add: split_first_def is_space_def is_digit_def exceeds_digit_limit_def)
  have val: "decode 4300 '' -1_2 :X'' = Inr (- 12)"
    using decode_error_iff_not_literal
      [where max_str_digits = 4300 and data = "'' -1_2 :X''", THEN conjunct2, rule_format, OF lit]
    by (simp add: decimal_value_def digit_value_def is_digit_def)
  have err: "decode 4300 ''12a:'' = Inl ValueError"
    by (rule decode_examples)
  show ?thesis
    using lit val err
      decode_error_iff_not_literal [where max_str_digits = 4300 and data = "''12a:''", THEN conjunct1]
    by blast
qed

text \<open>
  A datagram whose prefix is a run of digits beyond the limit is not decoded: with the
  default limit, 4301 digits before the delimiter give the parse error.
\<close>

lemma decode_too_many_digits:
  assumes "ds \<noteq> []" "\<forall>c \<in> set ds. is_digit c"
    "exceeds_digit_limit max_str_digits (length ds)"
  shows "decode max_str_digits (ds @ CHR '':'' # rest) = Inl ValueError"
proof -
  have nc: "CHR '':'' \<notin> set ds"
    using assms(2) is_digit_not_special(5) by blast
  have sp: "split_first (ds @ CHR '':'' # rest) = ds"
    using nc by (induction ds) (auto simp: split_first_def)
  obtain d ds' where ds: "ds = d # ds'" using assms(1) by (cases ds) auto
  have d: "is_digit d" using assms(2) by (simp add: ds)
  have strip: "dropWhile is_space ds = ds"
    using is_digit_not_special(1) [OF d] by (simp add: ds)
  have sgn: "sign_split ds = (1, ds)"
    using is_digit_not_special(2,3) [OF d] by (simp add: ds)
  have body: "takeWhile is_digit_or_underscore ds = ds" "dropWhile is_digit_or_underscore ds = []"
    using assms(2) by (simp_all add: is_digit_or_underscore_def)
  have flt: "filter is_digit ds = ds"
    using assms(2) by simp
  show ?thesis
    using assms(3) by (simp add: decode_def sp py_int_def strip sgn body flt)
qed

lemma decode_4301_digits:
  "decode 4300 (replicate 4301 (CHR ''1'') @ '':'') = Inl ValueError"
proof -
  have "decode 4300 (replicate 4301 (CHR ''1'') @ CHR '':'' # []) = Inl ValueError"
    by (rule decode_too_many_digits) (simp_all add: is_digit_def exceeds_digit_limit_def)
  then show ?thesis by simp
qed

section \<open>Encoding\<close>

lemma py_int_py_str:
  assumes n: "0 \<le> n"
    and lim: "\<not> exceeds_digit_limit max_str_digits (length (py_str n))"
  shows "py_int max_str_digits (py_str n) = Inr n"
proof -
  have dg: "digit_groups (digits_of (nat n))"
    by (rule digit_groups_all_digits) (auto simp: digits_of_nonempty digits_of_digits)
  have flt: "filter is_digit (digits_of (nat n)) = digits_of (nat n)"
    by (simp add: digits_of_digits)
  have "py_int max_str_digits ([] @ [] @ digits_of (nat n) @ [])
          = Inr (1 * decimal_value (filter is_digit (digits_of (nat n))))"
    using py_int_literal [of "[]" "[]" "digits_of (nat n)" "[]" max_str_digits] dg lim n
    by (simp add: flt py_str_def)
  then show ?thesis
    using n by (simp add: py_str_def flt decimal_value_digits_of)
qed

lemma py_str_no_colon: "0 \<le> n \<Longrightarrow> CHR '':'' \<notin> set (py_str n)"
  using digits_of_digits [of "CHR '':''" "nat n"] by (auto simp: py_str_def is_digit_def)

lemma encode_shape:
  assumes "int (length (py_str n)) + 1 \<le> total_size"
  shows "encode n total_size = py_str n @ '':'' @ replicate (nat (total_size - int (length (py_str n)) - 2)) (CHR ''X'')"
  using assms by (simp add: encode_def Let_def py_slice_to_def)

lemma split_first_prefix:
  "CHR '':'' \<notin> set p \<Longrightarrow> split_first (p @ CHR '':'' # rest) = p"
  by (induction p) (auto simp: split_first_def)

lemma encode_example: "encode 0 10 = ''0:XXXXXXX''"
  by (simp add: encode_def py_str_examples py_slice_to_def numeral_eq_Suc)

text \<open>
  Claim C4: for a non-negative sequence number and a total size of at least the length of
  the prefix \<open><seq>:\<close>, \<open>encode\<close> yields exactly \<open>total_size\<close> bytes. The sender builds
  the filler one byte short (the \<open>- 1\<close> on line 56), so the packet has \<open>total_size\<close>
  bytes only when the prefix alone fills it, and \<open>total_size - 1\<close> bytes otherwise,
  while line 61 still accounts \<open>current_size\<close> bytes for it.
\<close>

theorem encode_length:
  assumes "int (length (py_str n @ '':'')) \<le> total_size"
  shows "int (length (encode n total_size))
           = (if total_size = int (length (py_str n @ '':'')) then total_size else total_size - 1)"
  using assms by (simp add: encode_shape)

theorem encode_length_witness:
  "int (length (py_str 0 @ '':'')) \<le> 10 \<and> encode 0 10 = ''0:XXXXXXX'' \<and>
   int (length (encode 0 10)) = 9"
  using encode_length [of 0 10] by (simp add: py_str_examples encode_example)

section \<open>Round trip\<close>

text \<open>
  Claim C6: for every non-negative \<open>n\<close> whose decimal representation plus the delimiter
  fits within \<open>total_size\<close> bytes, decoding the encoded packet succeeds and returns \<open>n\<close>.
  With the interpreter's digit limit off (\<open>max_str_digits = 0\<close>) this holds for every such
  \<open>n\<close>; with a limit it holds for every such \<open>n\<close> within it, which under the default
  setting is every number of up to 4300 digits.
\<close>

theorem decode_encode:
  assumes "0 \<le> n" "int (length (py_str n)) + 1 \<le> total_size"
  shows "decode 0 (encode n total_size) = Inr n \<and>
         (\<not> exceeds_digit_limit max_str_digits (length (py_str n)) \<longrightarrow>
            decode max_str_digits (encode n total_size) = Inr n)"
proof -
  have sp: "split_first (encode n total_size) = py_str n"
    using split_first_prefix [OF py_str_no_colon [OF assms(1)]]
    by (simp add: encode_shape [OF assms(2)])
  have off: "\<not> exceeds_digit_limit 0 (length (py_str n))"
    by (simp add: exceeds_digit_limit_def)
  show ?thesis
    using py_int_py_str [OF assms(1) off] py_int_py_str [OF assms(1), of max_str_digits]
    by (simp add: decode_def sp)
qed

theorem decode_encode_witness:
  "(0::int) \<le> 77 \<and> int (length (py_str 77)) + 1 \<le> 30 \<and>
   \<not> exceeds_digit_limit 4300 (length (py_str 77)) \<and>
   decode 0 (encode 77 30) = Inr 77 \<and> decode 4300 (encode 77 30) = Inr 77"
  using decode_encode [of 77 30 4300]
  by (simp add: py_str_examples exceeds_digit_limit_def)

section \<open>The receive path\<close>

lemma receive_decode_error:
  "decode max_str_digits data = Inl e \<Longrightarrow>
   receive max_str_digits data st = st\<lparr>packets_received := packets_received st + 1,
                        bytes_received := bytes_received st + int (length data)\<rparr>"
  by (simp add: receive_def)

lemma receive_decode_ok:
  "decode max_str_digits data = Inr n \<Longrightarrow>
   receive max_str_digits data st = observe n (st\<lparr>packets_received := packets_received st + 1,
                                   bytes_received := bytes_received st + int (length data)\<rparr>)"
  by (simp add: receive_def)

text \<open>
  Claim C7: when a received datagram fails to decode, \<open>packets_received\<close> grows by one
  and \<open>bytes_received\<close> by the length of the datagram, and the sequence fields (the set of
  seen numbers, both bounds, the last number seen, the duplicate and out-of-order counts)
  are unchanged.
\<close>

theorem receive_undecodable:
  assumes "decode max_str_digits data = Inl e"
  shows "packets_received (receive max_str_digits data st) = packets_received st + 1 \<and>
         bytes_received (receive max_str_digits data st) = bytes_received st + int (length data) \<and>
         sequence_numbers (receive max_str_digits data st) = sequence_numbers st \<and>
         min_seq (receive max_str_digits data st) = min_seq st \<and>
         max_seq (receive max_str_digits data st) = max_seq st \<and>
         last_seq_num (receive max_str_digits data st) = last_seq_num st \<and>
         duplicates (receive max_str_digits data st) = duplicates st \<and>
         out_of_order (receive max_str_digits data st) = out_of_order st"
  using assms by (simp add: receive_def)

theorem receive_undecodable_witness:
  "decode 4300 ''junk'' = Inl ValueError \<and>
   packets_received (receive 4300 ''junk'' (init_stats 0 0)) = 1 \<and>
   bytes_received (receive 4300 ''junk'' (init_stats 0 0)) = 4 \<and>
   sequence_numbers (receive 4300 ''junk'' (init_stats 0 0)) = {} \<and>
   min_seq (receive 4300 ''junk'' (init_stats 0 0)) = None \<and>
   max_seq (receive 4300 ''junk'' (init_stats 0 0)) = None \<and>
   last_seq_num (receive 4300 ''junk'' (init_stats 0 0)) = None \<and>
   duplicates (receive 4300 ''junk'' (init_stats 0 0)) = 0 \<and>
   out_of_order (receive 4300 ''junk'' (init_stats 0 0)) = 0"
  using receive_undecodable [OF decode_examples(3), of "init_stats 0 0"] decode_examples(3)
  by (simp add: init_stats_def)

section \<open>Invariants of the tracker\<close>

lemma tracker_inv_init: "tracker_inv (init_stats t_start t_report)"
  by (simp add: tracker_inv_def init_stats_def)

lemma tracker_inv_observe:
  assumes "tracker_inv st" "duplicates st < packets_received st"
  shows "tracker_inv (observe n st)"
  using assms
  by (auto simp: tracker_inv_def observe_sequence_numbers observe_duplicates observe_min_seq
        observe_max_seq observe_raw_counters min_le_iff_disj le_max_iff_disj
        split: option.splits)

lemma tracker_inv_receive:
  assumes "tracker_inv st"
  shows "tracker_inv (receive max_str_digits data st)"
proof (cases "decode max_str_digits data")
  case (Inl e)
  then show ?thesis
    using assms by (simp add: receive_decode_error tracker_inv_def split: option.splits)
next
  case (Inr n)
  let ?st1 = "st\<lparr>packets_received := packets_received st + 1,
                  bytes_received := bytes_received st + int (length data)\<rparr>"
  have "tracker_inv ?st1" "duplicates ?st1 < packets_received ?st1"
    using assms by (simp_all add: tracker_inv_def split: option.splits)
  then show ?thesis
    by (simp only: receive_decode_ok [OF Inr] tracker_inv_observe)
qed

lemma tracker_inv_receive_all:
  "tracker_inv st \<Longrightarrow> tracker_inv (receive_all max_str_digits ds st)"
  by (induction ds arbitrary: st) (simp_all add: tracker_inv_receive)

lemma card_subset_interval:
  assumes "S \<subseteq> {lo..hi::int}" "lo \<le> hi"
  shows "int (card S) \<le> hi - lo + 1"
proof -
  have "card S \<le> card {lo..hi}"
    using assms(1) by (intro card_mono) simp_all
  then show ?thesis using assms(2) by simp
qed

text \<open>
  Claim C8: after any sequence of received datagrams from the initial state (every
  observation is made on behalf of one received datagram), the duplicate count does not
  exceed \<open>packets_received\<close>, and once both bounds are set, \<open>min_seq \<le> max_seq\<close> and the
  number of distinct sequence numbers is at most \<open>max_seq - min_seq + 1\<close>, so that
  expected minus received is not negative.
\<close>

theorem receive_all_invariants:
  "let st = receive_all max_str_digits ds (init_stats t_start t_report) in
     duplicates st \<le> packets_received st \<and>
     (\<forall>lo hi. min_seq st = Some lo \<and> max_seq st = Some hi \<longrightarrow>
        lo \<le> hi \<and>
        int (card (sequence_numbers st)) \<le> hi - lo + 1 \<and>
        (\<exists>expected received loss_percent.
           loss_stats st = (expected, Some received, loss_percent) \<and> 0 \<le> expected - received))"
proof -
  let ?st = "receive_all max_str_digits ds (init_stats t_start t_report)"
  have inv: "tracker_inv ?st"
    by (simp add: tracker_inv_receive_all tracker_inv_init)
  have dup: "duplicates ?st \<le> packets_received ?st"
    using inv by (simp add: tracker_inv_def)
  have rng: "lo \<le> hi \<and> int (card (sequence_numbers ?st)) \<le> hi - lo + 1"
    if "min_seq ?st = Some lo" "max_seq ?st = Some hi" for lo hi
    using inv that by (simp add: tracker_inv_def card_subset_interval)
  have loss: "\<exists>expected received loss_percent.
           loss_stats ?st = (expected, Some received, loss_percent) \<and> 0 \<le> expected - received"
    if "min_seq ?st = Some lo" "max_seq ?st = Some hi" for lo hi
    using rng [OF that] that by (simp add: loss_stats_def Let_def)
  show ?thesis
    unfolding Let_def using dup rng loss by blast
qed

theorem receive_all_invariants_witness:
  "let st = receive_all 4300 [''0:X'', ''2:X'', ''junk'', ''0:X''] (init_stats 0 0) in
     min_seq st = Some 0 \<and> max_seq st = Some 2 \<and> duplicates st = 1 \<and> packets_received st = 4 \<and>
     duplicates st \<le> packets_received st \<and> (0::int) \<le> 2 \<and>
     int (card (sequence_numbers st)) \<le> 2 - 0 + 1 \<and>
     (\<exists>expected received loss_percent.
        loss_stats st = (expected, Some received, loss_percent) \<and> 0 \<le> expected - received)"
  using receive_all_invariants [of 4300 "[''0:X'', ''2:X'', ''junk'', ''0:X'']" 0 0]
  by (simp add: Let_def receive_def decode_examples observe_def init_stats_def)

text \<open>
  Claim C10: after any sequence of observe calls from the initial state, the duplicate
  count plus the number of distinct sequence numbers seen equals the number of calls.
\<close>

theorem observe_all_duplicates_plus_seen:
  "duplicates (observe_all ns (init_stats t_start t_report))
     + int (card (sequence_numbers (observe_all ns (init_stats t_start t_report))))
   = int (length ns)"
  using observe_all_count [of "init_stats t_start t_report" ns]
  by (simp add: init_stats_def)

section \<open>Rate sampling\<close>

text \<open>
  Claim C5, as stated, expects \<open>instant_bps = 800000\<close> from \<open>tick(100, 800000, 1.0)\<close>.
  The second argument is a byte count and line 56 multiplies it by eight.
\<close>

theorem tick_scenario_c_as_claimed_counterexample:
  "fst (tick 100 800000 1 []) \<noteq> (100, 800000)"
  by (simp add: tick_def)

text \<open>
  Claim C5 (amended): \<open>tick(100, 800000, 1.0)\<close> returns \<open>instant_pps = 100\<close> and
  \<open>instant_bps = 6400000\<close>, eight bits for each byte; and for any deltas, \<open>tick\<close> with
  an elapsed time of zero or less returns \<open>(0, 0)\<close>, raises nothing and leaves the
  window as it is.
\<close>

theorem tick_scenario_c:
  "fst (tick 100 800000 1 window) = (100, 6400000) \<and>
   (elapsed \<le> 0 \<longrightarrow> tick delta_packets delta_bytes elapsed window = ((0, 0), window))"
  by (simp add: tick_def Let_def)

theorem tick_scenario_c_witness:
  "fst (tick 100 800000 1 [(3, 4)]) = (100, 6400000) \<and>
   (0::real) \<le> 0 \<and> tick 5 7 0 [(3, 4)] = ((0, 0), [(3, 4)])"
  using tick_scenario_c [of "[(3, 4)]" 0 5 7] by simp

lemma tick_length:
  "length window \<le> 10 \<Longrightarrow> length (snd (tick dp db dt window)) \<le> 10"
  by (simp add: tick_def Let_def)

lemma ticks_length:
  "length window \<le> 10 \<Longrightarrow> length (ticks ts window) \<le> 10"
proof (induction ts arbitrary: window)
  case Nil
  then show ?case by simp
next
  case (Cons t ts)
  obtain dp db dt where t: "t = (dp, db, dt)" by (cases t)
  show ?case
    using Cons.IH [OF tick_length [OF Cons.prems]] by (simp add: t)
qed

lemma tick_positive:
  assumes "dt > 0" "length window \<le> 10"
  shows "snd (tick dp db dt window)
           = drop (length window + 1 - 10) (window @ [sample_of (dp, db, dt)])"
proof (cases "length window < 10")
  case True
  then show ?thesis using assms(1) by (simp add: tick_def sample_of_def Let_def)
next
  case False
  then have len: "length window = 10" using assms(2) by simp
  then have "window \<noteq> []" by auto
  then show ?thesis
    using assms(1) len by (simp add: tick_def sample_of_def Let_def drop_Suc)
qed

lemma ticks_positive:
  assumes "\<forall>(dp, db, dt) \<in> set ts. dt > 0" "length window \<le> 10"
  shows "ticks ts window
           = drop (length window + length ts - 10) (window @ map sample_of ts)"
  using assms
proof (induction ts arbitrary: window)
  case Nil
  then show ?case by simp
next
  case (Cons t ts)
  obtain dp db dt where t: "t = (dp, db, dt)" by (cases t)
  let ?w = "snd (tick dp db dt window)"
  have pos: "dt > 0" using Cons.prems(1) by (simp add: t)
  have w: "?w = drop (length window + 1 - 10) (window @ [sample_of t])"
    using tick_positive [OF pos Cons.prems(2)] by (simp add: t)
  have len: "length ?w \<le> 10"
    by (rule tick_length [OF Cons.prems(2)])
  have "ticks (t # ts) window = ticks ts ?w" by (simp add: t)
  also have "\<dots> = drop (length ?w + length ts - 10) (?w @ map sample_of ts)"
    using Cons.IH [OF _ len] Cons.prems(1) by simp
  also have "\<dots> = drop (length window + length (t # ts) - 10) (window @ map sample_of (t # ts))"
  proof (cases "length window < 10")
    case True
    then show ?thesis by (simp add: w)
  next
    case False
    then have l10: "length window = 10" using Cons.prems(2) by simp
    then show ?thesis by (simp add: w)
  qed
  finally show ?case .
qed

lemma print_stats_window:
  "one_sec_rates (snd (print_stats st final now))
     = snd (tick (packets_received st - last_packets st) (bytes_received st - last_bytes st)
              (now - last_report_time st) (one_sec_rates st))"
  by (simp add: print_stats_def Let_def split: prod.splits option.splits)

lemma print_stats_window_length:
  "length (one_sec_rates st) \<le> 10 \<Longrightarrow> length (one_sec_rates (snd (print_stats st final now))) \<le> 10"
  by (simp only: print_stats_window tick_length)

text \<open>
  Claim C9: the rate window never holds more than ten samples after any sequence of
  \<open>tick\<close> calls; an eleventh sample evicts the oldest, so after eleven ticks with positive
  elapsed time the window is the samples of the last ten and the average is their mean,
  whatever the first tick was.
\<close>

theorem rate_window_bounded_fifo:
  "length (ticks ts []) \<le> 10 \<and>
   (length ts = 10 \<and> (\<forall>(dp, db, dt) \<in> set (t # ts). dt > 0) \<longrightarrow>
      ticks (t # ts) [] = map sample_of ts \<and>
      average (ticks (t # ts) [])
        = (sum_list (map (fst \<circ> sample_of) ts) / 10, sum_list (map (snd \<circ> sample_of) ts) / 10))"
proof -
  have bound: "length (ticks ts []) \<le> 10"
    by (rule ticks_length) simp
  have fifo: "ticks (t # ts) [] = map sample_of ts"
    if "length ts = 10" "\<forall>(dp, db, dt) \<in> set (t # ts). dt > 0"
    using ticks_positive [OF that(2), of "[]"] that(1) by simp
  have avg: "average (map sample_of ts)
        = (sum_list (map (fst \<circ> sample_of) ts) / 10, sum_list (map (snd \<circ> sample_of) ts) / 10)"
    if "length ts = 10"
    using that by (auto simp: average_def)
  show ?thesis
    using bound fifo avg by metis
qed

theorem rate_window_bounded_fifo_witness:
  "length (ticks (map (\<lambda>n. (n, 2 * n, 1)) [1, 2, 3, 4, 5, 6, 7, 8, 9, 10]) []) \<le> 10 \<and>
   length (map (\<lambda>n. (n, 2 * n, 1::real)) [1, 2, 3, 4, 5, 6, 7, 8, 9, 10::int]) = 10 \<and>
   list_all (\<lambda>(dp, db, dt). dt > 0)
     ((1000, 1000, 1) # map (\<lambda>n. (n, 2 * n, 1::real)) [1, 2, 3, 4, 5, 6, 7, 8, 9, 10::int]) \<and>
   ticks ((1000, 1000, 1) # map (\<lambda>n. (n, 2 * n, 1)) [1, 2, 3, 4, 5, 6, 7, 8, 9, 10]) []
     = map (\<lambda>n. (real_of_int n, real_of_int (16 * n))) [1, 2, 3, 4, 5, 6, 7, 8, 9, 10] \<and>
   average (ticks ((1000, 1000, 1) # map (\<lambda>n. (n, 2 * n, 1)) [1, 2, 3, 4, 5, 6, 7, 8, 9, 10]) [])
     = (11 / 2, 88)"
  using rate_window_bounded_fifo
    [of "map (\<lambda>n. (n, 2 * n, 1)) [1, 2, 3, 4, 5, 6, 7, 8, 9, 10]" "(1000, 1000, 1)"]
  by (simp add: sample_of_def tick_def)

end
